theory Spec2Isabelle
  imports Main "HOL-Library.Word" "HOL-Library.AList"
begin

unbundle bit_operations_syntax

section \<open>The file tree of \<^verbatim>\<open>cmd/k8s-fuse.go\<close>\<close>

text \<open>
  The program mounts a read-only file tree whose directories are the namespaces of a
  Kubernetes cluster and whose files are JSON renderings of API objects. Its five node
  types embed go-fuse's \<^verbatim>\<open>fs.Inode\<close>; each has an \<^verbatim>\<open>OnAdd\<close> hook that lists
  objects through client-go and registers children with \<^verbatim>\<open>AddChild\<close>.

  The libraries (go-fuse, client-go, \<^verbatim>\<open>encoding/json\<close>, \<^verbatim>\<open>flag\<close>, \<^verbatim>\<open>filepath\<close>,
  \<^verbatim>\<open>homedir\<close>) are not part of the program. What they return is a parameter of the
  model, collected in the record \<open>world\<close>; what they do to an inode
  (\<^verbatim>\<open>NewPersistentInode\<close>, \<^verbatim>\<open>AddChild\<close>) is modelled after their documented contract.
  go-fuse runs the \<^verbatim>\<open>OnAdd\<close> hook of an embedder while \<^verbatim>\<open>NewPersistentInode\<close> creates
  its inode, before the caller can add it anywhere: creating a directory populates it,
  and a panic in the hook of a child is a panic of the hook that creates the child.
\<close>

subsection \<open>Values\<close>

type_synonym bytes = string

text \<open>A Go \<^verbatim>\<open>error\<close> value is opaque to the program: it is only compared with nil.\<close>

type_synonym err = string

text \<open>
  \<^verbatim>\<open>*kubernetes.Clientset\<close> is a pointer: a handle, or nil (\<open>None\<close>).
  \<^verbatim>\<open>*rest.Config\<close> is a handle too.
\<close>

type_synonym Clientset = nat
type_synonym Config = nat

text \<open>
  An API object (\<^verbatim>\<open>apiv1.Namespace\<close>, \<^verbatim>\<open>apiv1.Service\<close>, \<^verbatim>\<open>appsv1.Deployment\<close>,
  \<^verbatim>\<open>networkingv1.Ingress\<close>): the program reads its \<^verbatim>\<open>Name\<close> and hands the whole
  object to the JSON encoder.
\<close>

record 'a object =
  Name :: string
  body :: 'a

text \<open>
  \<^verbatim>\<open>fuse.Attr\<close> and \<^verbatim>\<open>fs.StableAttr\<close>. The program writes \<^verbatim>\<open>Mode\<close> only; of the
  fields it leaves at their zero value the model keeps \<^verbatim>\<open>Size\<close>.
\<close>

record Attr =
  Size :: "64 word"
  Mode :: "32 word"

record StableAttr =
  StableMode :: "32 word"

text \<open>Go's octal literals: \<^verbatim>\<open>0644\<close> is \<open>octal [6, 4, 4]\<close>.\<close>

definition octal :: "nat list \<Rightarrow> 32 word" where
  "octal ds = of_nat (foldl (\<lambda>a d. 8 * a + d) 0 ds)"

definition S_IFDIR :: "32 word" where
  "S_IFDIR = octal [4, 0, 0, 0, 0]"


subsection \<open>Inodes\<close>

text \<open>
  The five struct types of the program and go-fuse's \<^verbatim>\<open>fs.MemRegularFile\<close>, without
  the embedded \<^verbatim>\<open>fs.Inode\<close>: an inode holds its embedder (\<open>ops\<close>), the stable
  attributes it was created with, and its children in the order they were added.
\<close>

datatype 'a embedder =
    KubernetesRoot "Clientset option"
  | KubernetesNamespace "Clientset option" "'a object"
  | KubernetesServices "Clientset option" string
  | KubernetesDeployments "Clientset option" string
  | KubernetesIngress "Clientset option" string
  | MemRegularFile bytes Attr

datatype 'a inode =
  Inode (ops: "'a embedder") (stableAttr: StableAttr) (children: "(string \<times> 'a inode) list")

text \<open>
  \<^verbatim>\<open>AddChild(name, ch, overwrite)\<close>: ``If overwrite is false, fail if the destination
  already exists.'' The updated parent comes with the \<^verbatim>\<open>success\<close> flag; a new name
  goes to the end of the children, a replaced child keeps its place.
\<close>

definition AddChild :: "string \<Rightarrow> 'a inode \<Rightarrow> bool \<Rightarrow> 'a inode \<Rightarrow> 'a inode \<times> bool" where
  "AddChild name ch overwrite n =
     (if map_of (children n) name \<noteq> None \<and> \<not> overwrite then (n, False)
      else (Inode (ops n) (stableAttr n) (AList.update name ch (children n)), True))"

text \<open>\<^verbatim>\<open>GetChild(name)\<close>, and the bytes of a \<^verbatim>\<open>MemRegularFile\<close>.\<close>

definition GetChild :: "string \<Rightarrow> 'a inode \<Rightarrow> 'a inode option" where
  "GetChild name n = map_of (children n) name"


subsection \<open>The environment\<close>

text \<open>
  What the libraries answer: the home directory, the value of the \<^verbatim>\<open>-kubeconfig\<close>
  flag when the command line gives one, the two steps that build a client, the four
  \<^verbatim>\<open>List\<close> calls (by client, and by namespace name), \<^verbatim>\<open>json.MarshalIndent\<close> (by value,
  prefix and indent), \<^verbatim>\<open>filepath.Join\<close>, and \<^verbatim>\<open>fs.Mount\<close> (by mount point).
\<close>

record 'a world =
  HomeDir :: string
  flag_kubeconfig :: "string option"
  filepath_Join :: "string list \<Rightarrow> string"
  BuildConfigFromFlags :: "string \<Rightarrow> string \<Rightarrow> err + Config"
  NewForConfig :: "Config \<Rightarrow> err + Clientset"
  Namespaces_List :: "Clientset \<Rightarrow> err + 'a object list"
  Services_List :: "Clientset \<Rightarrow> string \<Rightarrow> err + 'a object list"
  Deployments_List :: "Clientset \<Rightarrow> string \<Rightarrow> err + 'a object list"
  Ingresses_List :: "Clientset \<Rightarrow> string \<Rightarrow> err + 'a object list"
  json_MarshalIndent :: "'a object \<Rightarrow> string \<Rightarrow> string \<Rightarrow> err + bytes"
  fs_Mount :: "string \<Rightarrow> err + unit"

subsection \<open>Failures\<close>

text \<open>
  \<^verbatim>\<open>panic(err)\<close>, the run-time panics of a nil pointer and of an index out of range
  (index, length), and \<^verbatim>\<open>log.Fatalf\<close>. A hook mutates its receiver in place, so a
  failing hook leaves the receiver as it was when the panic started: the failure
  carries that inode.
\<close>

datatype failure =
    Panic err
  | NilPointerDereference
  | IndexOutOfRange nat nat
  | Fatalf err

type_synonym 'a result = "(failure \<times> 'a inode) + 'a inode"

definition final :: "'a result \<Rightarrow> 'a inode" where
  "final res = (case res of Inl (f, n) \<Rightarrow> n | Inr n \<Rightarrow> n)"

subsection \<open>The hooks\<close>

text \<open>
  Lines 173--189, the body of \<^verbatim>\<open>if r.clientset == nil\<close>: the default of the
  \<^verbatim>\<open>-kubeconfig\<close> flag, its value after \<^verbatim>\<open>flag.Parse()\<close>, and the client built from it.
\<close>

definition kubeconfig :: "'a world \<Rightarrow> string" where
  "kubeconfig w =
     (let home = HomeDir w;
          dflt = (if home \<noteq> [] then filepath_Join w [home, ''.kube'', ''config''] else [])
      in case flag_kubeconfig w of None \<Rightarrow> dflt | Some v \<Rightarrow> v)"

definition new_clientset :: "'a world \<Rightarrow> err + Clientset" where
  "new_clientset w =
     (case BuildConfigFromFlags w [] (kubeconfig w) of
        Inl e \<Rightarrow> Inl e
      | Inr config \<Rightarrow>
          (case NewForConfig w config of
             Inl e \<Rightarrow> Inl e
           | Inr clientset \<Rightarrow> Inr clientset))"

text \<open>
  How deep the tree under an embedder can get: the hooks create inodes of smaller
  embedders only, which is why the recursion below ends.
\<close>

fun depth :: "'a embedder \<Rightarrow> nat" where
  "depth (KubernetesRoot cs) = 3"
| "depth (KubernetesNamespace cs namespace) = 2"
| "depth (KubernetesServices cs ns) = 1"
| "depth (KubernetesDeployments cs ns) = 1"
| "depth (KubernetesIngress cs ns) = 1"
| "depth (MemRegularFile d a) = 0"

text \<open>
  \<^verbatim>\<open>OnAdd\<close>, one equation for each receiver type, in the order of the source;
  \<^verbatim>\<open>fs.MemRegularFile\<close> has no such hook.

  \<^verbatim>\<open>NewPersistentInode(ctx, ops, attr)\<close> makes an inode with no child for the embedder
  and runs the embedder's hook on it. It returns the inode the hook leaves, or the
  panic of the hook; the inode number is the host's to assign and is left out.

  \<open>range_Items\<close> is the loop \<^verbatim>\<open>for _, resource := range xs.Items\<close>, the same text in
  the three collection hooks (lines 67--80, 89--102, 111--124);
  \<open>range_namespaces\<close> is the loop of the root, lines 197--201.
\<close>

function OnAdd :: "'a world \<Rightarrow> 'a inode \<Rightarrow> 'a result"
  and NewPersistentInode :: "'a world \<Rightarrow> 'a embedder \<Rightarrow> StableAttr \<Rightarrow> failure + 'a inode"
  and range_Items :: "'a world \<Rightarrow> 'a object list \<Rightarrow> 'a inode \<Rightarrow> 'a result"
  and range_namespaces ::
    "'a world \<Rightarrow> Clientset option \<Rightarrow> 'a object list \<Rightarrow> 'a inode \<Rightarrow> 'a result"
where
  "OnAdd w (Inode (KubernetesServices cs ns) sa ch) =
     (let r = Inode (KubernetesServices cs ns) sa ch in
      case cs of
        None \<Rightarrow> Inl (NilPointerDereference, r)
      | Some c \<Rightarrow>
          (case Services_List w c ns of
             Inl e \<Rightarrow> Inl (Panic e, r)
           | Inr services \<Rightarrow> range_Items w services r))"
| "OnAdd w (Inode (KubernetesDeployments cs ns) sa ch) =
     (let r = Inode (KubernetesDeployments cs ns) sa ch in
      case cs of
        None \<Rightarrow> Inl (NilPointerDereference, r)
      | Some c \<Rightarrow>
          (case Deployments_List w c ns of
             Inl e \<Rightarrow> Inl (Panic e, r)
           | Inr deployments \<Rightarrow> range_Items w deployments r))"
| "OnAdd w (Inode (KubernetesIngress cs ns) sa ch) =
     (let r = Inode (KubernetesIngress cs ns) sa ch in
      case cs of
        None \<Rightarrow> Inl (NilPointerDereference, r)
      | Some c \<Rightarrow>
          (case Ingresses_List w c ns of
             Inl e \<Rightarrow> Inl (Panic e, r)
           | Inr ingresses \<Rightarrow> range_Items w ingresses r))"
| "OnAdd w (Inode (KubernetesNamespace cs namespace) sa ch) =
     (let r = Inode (KubernetesNamespace cs namespace) sa ch in
      case json_MarshalIndent w namespace [] '' '' of
        Inl e \<Rightarrow> Inl (Panic e, r)
      | Inr b \<Rightarrow>
     (case NewPersistentInode w (MemRegularFile b \<lparr>Size = 0, Mode = octal [6, 4, 4]\<rparr>)
             \<lparr>StableMode = 0\<rparr> of
        Inl f \<Rightarrow> Inl (f, r)
      | Inr ch \<Rightarrow>
     (let r1 = fst (AddChild ''namespace.json'' ch False r) in
      case NewPersistentInode w (KubernetesServices cs (Name namespace))
             \<lparr>StableMode = S_IFDIR\<rparr> of
        Inl f \<Rightarrow> Inl (f, r1)
      | Inr services \<Rightarrow>
     (let r2 = fst (AddChild ''services'' services False r1) in
      case NewPersistentInode w (KubernetesDeployments cs (Name namespace))
             \<lparr>StableMode = S_IFDIR\<rparr> of
        Inl f \<Rightarrow> Inl (f, r2)
      | Inr deployments \<Rightarrow>
     (let r3 = fst (AddChild ''deployments'' deployments False r2) in
      case NewPersistentInode w (KubernetesIngress cs (Name namespace))
             \<lparr>StableMode = S_IFDIR\<rparr> of
        Inl f \<Rightarrow> Inl (f, r3)
      | Inr ingresses \<Rightarrow> Inr (fst (AddChild ''ingresses'' ingresses False r3)))))))"
| "OnAdd w (Inode (KubernetesRoot cs) sa ch) =
     (case (case cs of None \<Rightarrow> new_clientset w | Some c \<Rightarrow> Inr c) of
        Inl e \<Rightarrow> Inl (Panic e, Inode (KubernetesRoot cs) sa ch)
      | Inr c \<Rightarrow>
          (let r = Inode (KubernetesRoot (Some c)) sa ch in
           case Namespaces_List w c of
             Inl e \<Rightarrow> Inl (Panic e, r)
           | Inr namespaces \<Rightarrow> range_namespaces w (Some c) namespaces r))"
| "OnAdd w (Inode (MemRegularFile d a) sa ch) = Inr (Inode (MemRegularFile d a) sa ch)"
| "NewPersistentInode w e sa =
     (case OnAdd w (Inode e sa []) of Inl (f, n) \<Rightarrow> Inl f | Inr n \<Rightarrow> Inr n)"
| "range_Items w [] r = Inr r"
| "range_Items w (resource # rest) r =
     (case json_MarshalIndent w resource [] '' '' of
        Inl e \<Rightarrow> Inl (Panic e, r)
      | Inr b \<Rightarrow>
     (case NewPersistentInode w (MemRegularFile b \<lparr>Size = 0, Mode = octal [6, 4, 4]\<rparr>)
             \<lparr>StableMode = 0\<rparr> of
        Inl f \<Rightarrow> Inl (f, r)
      | Inr ch \<Rightarrow> range_Items w rest (fst (AddChild (Name resource) ch False r))))"
| "range_namespaces w cs [] r = Inr r"
| "range_namespaces w cs (namespace # rest) r =
     (case NewPersistentInode w (KubernetesNamespace cs namespace) \<lparr>StableMode = S_IFDIR\<rparr> of
        Inl f \<Rightarrow> Inl (f, r)
      | Inr chDir \<Rightarrow> range_namespaces w cs rest (fst (AddChild (Name namespace) chDir False r)))"
  by pat_completeness auto
termination
  by (relation "inv_image (less_than <*lex*> less_than)
        (\<lambda>x. case x of
           Inl (Inl (w, n)) \<Rightarrow> (2 * depth (ops n), 0)
         | Inl (Inr (w, e, sa)) \<Rightarrow> (2 * depth e + 1, 0)
         | Inr (Inl (w, items, r)) \<Rightarrow> (1, Suc (length items))
         | Inr (Inr (w, cs, namespaces, r)) \<Rightarrow> (5, Suc (length namespaces)))")
    auto

text \<open>
  The leaf file of lines 72--78, 94--100, 116--122 and 132--138, as
  \<^verbatim>\<open>NewPersistentInode\<close> returns it:
  \<^verbatim>\<open>&fs.MemRegularFile{Data: b, Attr: fuse.Attr{Mode: 0644}}\<close> with \<^verbatim>\<open>fs.StableAttr{}\<close>.
\<close>

definition leaf :: "bytes \<Rightarrow> 'a inode" where
  "leaf b = Inode (MemRegularFile b \<lparr>Size = 0, Mode = octal [6, 4, 4]\<rparr>) \<lparr>StableMode = 0\<rparr> []"


text \<open>
  The \<^verbatim>\<open>Run\<close> function of \<^verbatim>\<open>mountCmd\<close>, lines 212--221. \<^verbatim>\<open>args[0]\<close> is evaluated
  before \<^verbatim>\<open>fs.Mount\<close> is called, and panics on an empty slice. The root's hook runs
  inside \<^verbatim>\<open>fs.Mount\<close>; \<^verbatim>\<open>server.Wait()\<close> returns when the tree is unmounted.
\<close>

definition mountCmd_Run :: "'a world \<Rightarrow> string list \<Rightarrow> failure + unit" where
  "mountCmd_Run w args =
     (case args of
        [] \<Rightarrow> Inl (IndexOutOfRange 0 0)
      | mountpoint # _ \<Rightarrow>
          (case fs_Mount w mountpoint of
             Inl e \<Rightarrow> Inl (Fatalf e)
           | Inr server \<Rightarrow> Inr ()))"

subsection \<open>Reading the tree\<close>

text \<open>
  The children a loop of \<^verbatim>\<open>AddChild(name, ch, false)\<close> calls leaves behind, and the
  client handles that the nodes of a tree hold.
\<close>

fun add_all :: "(string \<times> 'a inode) list \<Rightarrow> 'a inode \<Rightarrow> 'a inode" where
  "add_all [] r = r"
| "add_all ((name, ch) # rest) r = add_all rest (fst (AddChild name ch False r))"

fun embedder_clientset :: "'a embedder \<Rightarrow> Clientset option set" where
  "embedder_clientset (KubernetesRoot cs) = {cs}"
| "embedder_clientset (KubernetesNamespace cs namespace) = {cs}"
| "embedder_clientset (KubernetesServices cs ns) = {cs}"
| "embedder_clientset (KubernetesDeployments cs ns) = {cs}"
| "embedder_clientset (KubernetesIngress cs ns) = {cs}"
| "embedder_clientset (MemRegularFile d a) = {}"

fun clientsets :: "'a inode \<Rightarrow> Clientset option set" where
  "clientsets (Inode e sa ch) = embedder_clientset e \<union> (\<Union>p \<in> set ch. clientsets (snd p))"

text \<open>
  The first occurrence of each name in a listing, in the order of the listing: an
  object is dropped when its name is among those \<open>seen\<close> before it.
\<close>

fun first_occurrences :: "string list \<Rightarrow> 'a object list \<Rightarrow> 'a object list" where
  "first_occurrences seen [] = []"
| "first_occurrences seen (x # xs) =
     (if Name x \<in> set seen then first_occurrences seen xs
      else x # first_occurrences (Name x # seen) xs)"

subsection \<open>Clusters to run the model on\<close>

text \<open>
  Objects whose body is a number. The encoder writes the body in unary, a slash and
  the name; \<open>decode\<close> reads both back.
\<close>

definition obj :: "string \<Rightarrow> nat \<Rightarrow> nat object" where
  "obj n k = \<lparr>Name = n, body = k\<rparr>"

definition encode :: "nat object \<Rightarrow> bytes" where
  "encode v = replicate (body v) (CHR ''+'') @ ''/'' @ Name v"


text \<open>
  Scenario A of the specification: namespaces \<open>default\<close> and \<open>kube-system\<close>;
  \<open>default\<close> has the service \<open>svc-a\<close>, no deployment and the ingress \<open>ing-1\<close>;
  \<open>kube-system\<close> is empty. The only client that may list namespaces is the one built
  from \<^verbatim>\<open>/home/u/.kube/config\<close>.
\<close>

definition scenario_A :: "nat world" where
  "scenario_A = \<lparr>
     HomeDir = ''/home/u'',
     flag_kubeconfig = None,
     filepath_Join = (\<lambda>xs. case xs of [] \<Rightarrow> [] | x # r \<Rightarrow> foldl (\<lambda>a b. a @ ''/'' @ b) x r),
     BuildConfigFromFlags =
       (\<lambda>masterUrl path. if path = ''/home/u/.kube/config'' then Inr 7 else Inl ''no configuration''),
     NewForConfig = (\<lambda>config. Inr (config + 1)),
     Namespaces_List =
       (\<lambda>c. if c = 8 then Inr [obj ''default'' 1, obj ''kube-system'' 2] else Inl ''unauthorized''),
     Services_List = (\<lambda>c ns. if ns = ''default'' then Inr [obj ''svc-a'' 3] else Inr []),
     Deployments_List = (\<lambda>c ns. Inr []),
     Ingresses_List = (\<lambda>c ns. if ns = ''default'' then Inr [obj ''ing-1'' 0] else Inr []),
     json_MarshalIndent = (\<lambda>v prefix indent. Inr (encode v)),
     fs_Mount = (\<lambda>dir. if dir = [] then Inl ''no mount point'' else Inr ())
   \<rparr>"

text \<open>Scenario B: the listing of the services of \<open>default\<close> fails.\<close>

definition scenario_B :: "nat world" where
  "scenario_B = scenario_A
     \<lparr>Services_List := (\<lambda>c ns. if ns = ''default'' then Inl ''timeout'' else Inr [])\<rparr>"

text \<open>
  A cluster that answers with the same name twice: two namespaces named \<open>default\<close>,
  and two services named \<open>svc-a\<close> in the namespace \<open>twice\<close>.
\<close>

definition scenario_twice :: "nat world" where
  "scenario_twice = scenario_A
     \<lparr>Namespaces_List := (\<lambda>c. Inr [obj ''default'' 1, obj ''default'' 2]),
      Services_List :=
        (\<lambda>c ns. if ns = ''twice'' then Inr [obj ''svc-a'' 1, obj ''svc-b'' 0, obj ''svc-a'' 2]
                else if ns = ''default'' then Inr [obj ''svc-a'' 3] else Inr [])\<rparr>"


text \<open>A command line that gives \<^verbatim>\<open>-kubeconfig\<close> a path with no configuration.\<close>

definition scenario_flag :: "nat world" where
  "scenario_flag = scenario_A \<lparr>flag_kubeconfig := Some ''/nowhere''\<rparr>"


text \<open>
  The trees of scenario A: the directory of \<open>default\<close> and the one of \<open>kube-system\<close>
  under a client \<open>c\<close>, and the root under the client 8.
\<close>

definition tree_default :: "Clientset \<Rightarrow> nat inode" where
  "tree_default c =
     Inode (KubernetesNamespace (Some c) (obj ''default'' 1)) \<lparr>StableMode = S_IFDIR\<rparr>
       [(''namespace.json'', leaf ''+/default''),
        (''services'',
           Inode (KubernetesServices (Some c) ''default'') \<lparr>StableMode = S_IFDIR\<rparr>
             [(''svc-a'', leaf ''+++/svc-a'')]),
        (''deployments'',
           Inode (KubernetesDeployments (Some c) ''default'') \<lparr>StableMode = S_IFDIR\<rparr> []),
        (''ingresses'',
           Inode (KubernetesIngress (Some c) ''default'') \<lparr>StableMode = S_IFDIR\<rparr>
             [(''ing-1'', leaf ''/ing-1'')])]"

definition tree_kube_system :: "Clientset \<Rightarrow> nat inode" where
  "tree_kube_system c =
     Inode (KubernetesNamespace (Some c) (obj ''kube-system'' 2)) \<lparr>StableMode = S_IFDIR\<rparr>
       [(''namespace.json'', leaf ''++/kube-system''),
        (''services'',
           Inode (KubernetesServices (Some c) ''kube-system'') \<lparr>StableMode = S_IFDIR\<rparr> []),
        (''deployments'',
           Inode (KubernetesDeployments (Some c) ''kube-system'') \<lparr>StableMode = S_IFDIR\<rparr> []),
        (''ingresses'',
           Inode (KubernetesIngress (Some c) ''kube-system'') \<lparr>StableMode = S_IFDIR\<rparr> [])]"

definition tree_A :: "nat inode" where
  "tree_A =
     Inode (KubernetesRoot (Some 8)) \<lparr>StableMode = S_IFDIR\<rparr>
       [(''default'', tree_default 8), (''kube-system'', tree_kube_system 8)]"

section \<open>Properties\<close>

subsection \<open>Creating inodes and adding children\<close>

declare NewPersistentInode.simps [simp del]

lemma NewPersistentInode_file [simp]:
  "NewPersistentInode w (MemRegularFile d a) sa = Inr (Inode (MemRegularFile d a) sa [])"
  by (simp add: NewPersistentInode.simps)

lemma NewPersistentInode_final:
  "NewPersistentInode w e sa = Inr n \<Longrightarrow> final (OnAdd w (Inode e sa [])) = n"
  by (auto simp: NewPersistentInode.simps final_def split: sum.splits)

lemma AddChild_new:
  "map_of (children n) name = None \<Longrightarrow>
     fst (AddChild name ch False n) = Inode (ops n) (stableAttr n) (children n @ [(name, ch)])"
proof -
  have upd: "map_of al k = None \<Longrightarrow> AList.update k v al = al @ [(k, v)]"
    for al :: "(string \<times> 'a inode) list" and k v
    by (induction al) (auto split: if_splits)
  assume "map_of (children n) name = None"
  then show ?thesis by (simp add: AddChild_def upd)
qed

lemma AddChild_present:
  "map_of (children n) name \<noteq> None \<Longrightarrow> AddChild name ch False n = (n, False)"
  by (simp add: AddChild_def)

lemma ops_AddChild: "ops (fst (AddChild name ch ow n)) = ops n"
  by (simp add: AddChild_def)


lemma children_AddChild_False:
  "children (fst (AddChild name ch False n)) =
     (if map_of (children n) name = None then children n @ [(name, ch)] else children n)"
  by (simp add: AddChild_new AddChild_present)


lemma add_all_distinct:
  "distinct (map fst kvs) \<Longrightarrow> fst ` set kvs \<inter> fst ` set (children r) = {} \<Longrightarrow>
     add_all kvs r = Inode (ops r) (stableAttr r) (children r @ kvs)"
proof (induction kvs arbitrary: r)
  case Nil
  then show ?case by simp
next
  case (Cons kv kvs)
  obtain name ch where kv: "kv = (name, ch)" by (cases kv)
  from Cons.prems have none: "map_of (children r) name = None"
    by (auto simp: kv map_of_eq_None_iff)
  let ?r = "fst (AddChild name ch False r)"
  have r': "?r = Inode (ops r) (stableAttr r) (children r @ [(name, ch)])"
    using none by (rule AddChild_new)
  have "add_all kvs ?r = Inode (ops ?r) (stableAttr ?r) (children ?r @ kvs)"
    using Cons.prems by (intro Cons.IH) (auto simp: r' kv)
  then show ?case by (simp add: kv r')
qed

lemma range_Items_add_all:
  "\<forall>x\<in>set items. json_MarshalIndent w x [] '' '' = Inr (enc x) \<Longrightarrow>
     range_Items w items r = Inr (add_all (map (\<lambda>x. (Name x, leaf (enc x))) items) r)"
  by (induction items arbitrary: r) (auto simp: leaf_def)

lemma range_namespaces_add_all:
  "\<forall>n\<in>set namespaces.
      NewPersistentInode w (KubernetesNamespace cs n) \<lparr>StableMode = S_IFDIR\<rparr> = Inr (pop n) \<Longrightarrow>
     range_namespaces w cs namespaces r = Inr (add_all (map (\<lambda>n. (Name n, pop n)) namespaces) r)"
  by (induction namespaces arbitrary: r) auto


lemma clientsets_alt:
  "clientsets n = embedder_clientset (ops n) \<union> (\<Union>p \<in> set (children n). clientsets (snd p))"
  by (cases n) simp

lemma clientsets_AddChild:
  "clientsets (fst (AddChild name ch False r)) \<subseteq> clientsets r \<union> clientsets ch"
  by (subst (1 2) clientsets_alt) (auto simp: ops_AddChild children_AddChild_False)

lemma clientsets_leaf: "clientsets (leaf b) = {}"
  by (simp add: leaf_def)

lemma range_Items_clientsets:
  "clientsets (final (range_Items w items r)) \<subseteq> clientsets r"
proof (induction items arbitrary: r)
  case Nil
  then show ?case by (simp add: final_def)
next
  case (Cons x items)
  show ?case
  proof (cases "json_MarshalIndent w x [] '' ''")
    case (Inl e)
    then show ?thesis by (simp add: final_def)
  next
    case (Inr b)
    have "clientsets (fst (AddChild (Name x) (leaf b) False r)) \<subseteq> clientsets r"
      using clientsets_AddChild [of "Name x" "leaf b" r] by (simp add: clientsets_leaf)
    with Cons.IH [of "fst (AddChild (Name x) (leaf b) False r)"] Inr show ?thesis
      by (auto simp: leaf_def)
  qed
qed

lemma OnAdd_collection:
  assumes "(e = KubernetesServices cs ns \<and> lst = Services_List w) \<or>
           (e = KubernetesDeployments cs ns \<and> lst = Deployments_List w) \<or>
           (e = KubernetesIngress cs ns \<and> lst = Ingresses_List w)"
  shows "OnAdd w (Inode e sa ch) =
     (case cs of
        None \<Rightarrow> Inl (NilPointerDereference, Inode e sa ch)
      | Some c \<Rightarrow>
          (case lst c ns of
             Inl er \<Rightarrow> Inl (Panic er, Inode e sa ch)
           | Inr items \<Rightarrow> range_Items w items (Inode e sa ch)))"
  using assms by (auto simp: Let_def)

lemma final_OnAdd_collection:
  assumes "e = KubernetesServices cs ns \<or> e = KubernetesDeployments cs ns \<or> e = KubernetesIngress cs ns"
  shows "\<exists>items. final (OnAdd w (Inode e sa ch)) = final (range_Items w items (Inode e sa ch))"
proof -
  from assms obtain lst where lst:
    "(e = KubernetesServices cs ns \<and> lst = Services_List w) \<or>
     (e = KubernetesDeployments cs ns \<and> lst = Deployments_List w) \<or>
     (e = KubernetesIngress cs ns \<and> lst = Ingresses_List w)"
    by blast
  have nil: "final (range_Items w [] (Inode e sa ch)) = Inode e sa ch"
    by (simp add: final_def)
  show ?thesis
  proof (cases cs)
    case None
    then have "final (OnAdd w (Inode e sa ch)) = Inode e sa ch"
      by (simp add: OnAdd_collection [OF lst] final_def)
    with nil show ?thesis by metis
  next
    case (Some c)
    show ?thesis
    proof (cases "lst c ns")
      case (Inl er)
      with Some have "final (OnAdd w (Inode e sa ch)) = Inode e sa ch"
        by (simp add: OnAdd_collection [OF lst] final_def)
      with nil show ?thesis by metis
    next
      case (Inr items)
      with Some have "OnAdd w (Inode e sa ch) = range_Items w items (Inode e sa ch)"
        by (simp add: OnAdd_collection [OF lst])
      then show ?thesis by metis
    qed
  qed
qed

lemma collection_clientsets:
  assumes "e = KubernetesServices cs ns \<or> e = KubernetesDeployments cs ns \<or> e = KubernetesIngress cs ns"
  shows "clientsets (final (OnAdd w (Inode e sa ch))) \<subseteq> clientsets (Inode e sa ch)"
proof -
  from final_OnAdd_collection [OF assms] obtain items where
    "final (OnAdd w (Inode e sa ch)) = final (range_Items w items (Inode e sa ch))"
    by blast
  with range_Items_clientsets [of w items "Inode e sa ch"] show ?thesis by simp
qed

lemma NewPersistentInode_collection_clientsets:
  assumes "e = KubernetesServices cs ns \<or> e = KubernetesDeployments cs ns \<or> e = KubernetesIngress cs ns"
      and "NewPersistentInode w e sa = Inr n"
  shows "clientsets n \<subseteq> {cs}"
proof -
  from assms(2) have "final (OnAdd w (Inode e sa [])) = n"
    by (rule NewPersistentInode_final)
  with collection_clientsets [OF assms(1), of w sa "[]"] assms(1) show ?thesis
    by auto
qed

lemma namespace_final_cases:
  fixes w cs namespace sa ch
  defines "r \<equiv> Inode (KubernetesNamespace cs namespace) sa ch"
  shows "final (OnAdd w r) = r \<or>
    (\<exists>b. final (OnAdd w r) = fst (AddChild ''namespace.json'' (leaf b) False r)) \<or>
    (\<exists>b s. NewPersistentInode w (KubernetesServices cs (Name namespace)) \<lparr>StableMode = S_IFDIR\<rparr> = Inr s \<and>
       final (OnAdd w r) = add_all [(''namespace.json'', leaf b), (''services'', s)] r) \<or>
    (\<exists>b s d. NewPersistentInode w (KubernetesServices cs (Name namespace)) \<lparr>StableMode = S_IFDIR\<rparr> = Inr s \<and>
       NewPersistentInode w (KubernetesDeployments cs (Name namespace)) \<lparr>StableMode = S_IFDIR\<rparr> = Inr d \<and>
       final (OnAdd w r) = add_all [(''namespace.json'', leaf b), (''services'', s), (''deployments'', d)] r) \<or>
    (\<exists>b s d i. NewPersistentInode w (KubernetesServices cs (Name namespace)) \<lparr>StableMode = S_IFDIR\<rparr> = Inr s \<and>
       NewPersistentInode w (KubernetesDeployments cs (Name namespace)) \<lparr>StableMode = S_IFDIR\<rparr> = Inr d \<and>
       NewPersistentInode w (KubernetesIngress cs (Name namespace)) \<lparr>StableMode = S_IFDIR\<rparr> = Inr i \<and>
       final (OnAdd w r) = add_all [(''namespace.json'', leaf b), (''services'', s), (''deployments'', d),
         (''ingresses'', i)] r)"
  unfolding r_def
  by (auto simp: final_def Let_def leaf_def split: sum.splits)


lemma clientsets_add_all:
  "clientsets (add_all kvs r) \<subseteq> clientsets r \<union> (\<Union>p \<in> set kvs. clientsets (snd p))"
proof (induction kvs arbitrary: r)
  case Nil
  then show ?case by simp
next
  case (Cons kv kvs)
  obtain name ch where kv: "kv = (name, ch)" by (cases kv)
  from Cons.IH [of "fst (AddChild name ch False r)"] clientsets_AddChild [of name ch r]
  show ?case by (auto simp: kv)
qed

lemma namespace_clientsets:
  "clientsets (final (OnAdd w (Inode (KubernetesNamespace cs namespace) sa ch)))
     \<subseteq> clientsets (Inode (KubernetesNamespace cs namespace) sa ch)"
proof -
  let ?r = "Inode (KubernetesNamespace cs namespace) sa ch"
  have own: "cs \<in> clientsets ?r" by simp
  have coll: "clientsets n \<subseteq> clientsets ?r"
    if "NewPersistentInode w (KubernetesServices cs ns) a = Inr n \<or>
        NewPersistentInode w (KubernetesDeployments cs ns) a = Inr n \<or>
        NewPersistentInode w (KubernetesIngress cs ns) a = Inr n" for n ns a
    using that own NewPersistentInode_collection_clientsets [of _ cs ns w a n] by blast
  from namespace_final_cases [of w cs namespace sa ch] show ?thesis
  proof (elim disjE exE conjE)
    assume "final (OnAdd w ?r) = ?r"
    then show ?thesis by simp
  next
    fix b assume "final (OnAdd w ?r) = fst (AddChild ''namespace.json'' (leaf b) False ?r)"
    with clientsets_AddChild [of "''namespace.json''" "leaf b" ?r] show ?thesis
      by (simp add: clientsets_leaf)
  next
    fix b s
    assume "NewPersistentInode w (KubernetesServices cs (Name namespace)) \<lparr>StableMode = S_IFDIR\<rparr> = Inr s"
      and f: "final (OnAdd w ?r) = add_all [(''namespace.json'', leaf b), (''services'', s)] ?r"
    then have "clientsets s \<subseteq> clientsets ?r" using coll by blast
    with clientsets_add_all [of "[(''namespace.json'', leaf b), (''services'', s)]" ?r]
    show ?thesis unfolding f by (auto simp: clientsets_leaf)
  next
    fix b s d
    assume "NewPersistentInode w (KubernetesServices cs (Name namespace)) \<lparr>StableMode = S_IFDIR\<rparr> = Inr s"
      and "NewPersistentInode w (KubernetesDeployments cs (Name namespace)) \<lparr>StableMode = S_IFDIR\<rparr> = Inr d"
      and f: "final (OnAdd w ?r) =
        add_all [(''namespace.json'', leaf b), (''services'', s), (''deployments'', d)] ?r"
    then have "clientsets s \<subseteq> clientsets ?r" "clientsets d \<subseteq> clientsets ?r"
      using coll by blast+
    with clientsets_add_all [of "[(''namespace.json'', leaf b), (''services'', s), (''deployments'', d)]" ?r]
    show ?thesis unfolding f by (auto simp: clientsets_leaf)
  next
    fix b s d i
    assume "NewPersistentInode w (KubernetesServices cs (Name namespace)) \<lparr>StableMode = S_IFDIR\<rparr> = Inr s"
      and "NewPersistentInode w (KubernetesDeployments cs (Name namespace)) \<lparr>StableMode = S_IFDIR\<rparr> = Inr d"
      and "NewPersistentInode w (KubernetesIngress cs (Name namespace)) \<lparr>StableMode = S_IFDIR\<rparr> = Inr i"
      and f: "final (OnAdd w ?r) =
        add_all [(''namespace.json'', leaf b), (''services'', s), (''deployments'', d), (''ingresses'', i)] ?r"
    then have "clientsets s \<subseteq> clientsets ?r" "clientsets d \<subseteq> clientsets ?r"
        "clientsets i \<subseteq> clientsets ?r"
      using coll by blast+
    with clientsets_add_all [of "[(''namespace.json'', leaf b), (''services'', s), (''deployments'', d),
        (''ingresses'', i)]" ?r]
    show ?thesis unfolding f by (auto simp: clientsets_leaf)
  qed
qed

lemma NewPersistentInode_namespace_clientsets:
  assumes "NewPersistentInode w (KubernetesNamespace cs namespace) sa = Inr n"
  shows "clientsets n \<subseteq> {cs}"
proof -
  from assms have "final (OnAdd w (Inode (KubernetesNamespace cs namespace) sa [])) = n"
    by (rule NewPersistentInode_final)
  with namespace_clientsets [of w cs namespace sa "[]"] show ?thesis by auto
qed

lemma range_namespaces_clientsets:
  "clientsets (final (range_namespaces w cs namespaces r)) \<subseteq> clientsets r \<union> {cs}"
proof (induction namespaces arbitrary: r)
  case Nil
  then show ?case by (auto simp: final_def)
next
  case (Cons x namespaces)
  show ?case
  proof (cases "NewPersistentInode w (KubernetesNamespace cs x) \<lparr>StableMode = S_IFDIR\<rparr>")
    case (Inl f)
    then show ?thesis by (auto simp: final_def)
  next
    case (Inr chDir)
    then have "clientsets chDir \<subseteq> {cs}"
      by (rule NewPersistentInode_namespace_clientsets)
    with clientsets_AddChild [of "Name x" chDir r]
    have "clientsets (fst (AddChild (Name x) chDir False r)) \<subseteq> clientsets r \<union> {cs}"
      by auto
    with Cons.IH [of "fst (AddChild (Name x) chDir False r)"] Inr show ?thesis
      by auto
  qed
qed



lemma ops_range_namespaces: "ops (final (range_namespaces w cs namespaces r)) = ops r"
proof (induction namespaces arbitrary: r)
  case Nil
  then show ?case by (simp add: final_def)
next
  case (Cons x namespaces)
  then show ?case
    by (cases "NewPersistentInode w (KubernetesNamespace cs x) \<lparr>StableMode = S_IFDIR\<rparr>")
      (simp_all add: final_def ops_AddChild)
qed



lemma OnAdd_clientsets:
  assumes "clientsets n \<subseteq> {Some c}"
  shows "clientsets (final (OnAdd w n)) \<subseteq> {Some c}"
proof (cases n)
  case (Inode e sa ch)
  show ?thesis
  proof (cases e)
    case (KubernetesRoot cs)
    with assms Inode have cs: "cs = Some c" by simp
    show ?thesis
    proof (cases "Namespaces_List w c")
      case (Inl er)
      then show ?thesis using assms by (simp add: Inode KubernetesRoot cs final_def)
    next
      case (Inr nss)
      then have "final (OnAdd w n) = final (range_namespaces w (Some c) nss n)"
        by (simp add: Inode KubernetesRoot cs)
      with range_namespaces_clientsets [of w "Some c" nss n] assms show ?thesis by auto
    qed
  next
    case (KubernetesNamespace cs namespace)
    with namespace_clientsets [of w cs namespace sa ch] assms Inode show ?thesis by auto
  next
    case (KubernetesServices cs ns)
    with collection_clientsets [of e cs ns w sa ch] assms Inode show ?thesis by auto
  next
    case (KubernetesDeployments cs ns)
    with collection_clientsets [of e cs ns w sa ch] assms Inode show ?thesis by auto
  next
    case (KubernetesIngress cs ns)
    with collection_clientsets [of e cs ns w sa ch] assms Inode show ?thesis by auto
  next
    case (MemRegularFile d a)
    then show ?thesis using assms by (simp add: Inode final_def)
  qed
qed

lemma OnAdd_collection_ok:
  assumes kind: "(e = KubernetesServices (Some c) ns \<and> Services_List w c ns = Inr items) \<or>
           (e = KubernetesDeployments (Some c) ns \<and> Deployments_List w c ns = Inr items) \<or>
           (e = KubernetesIngress (Some c) ns \<and> Ingresses_List w c ns = Inr items)"
  shows "OnAdd w (Inode e sa ch) = range_Items w items (Inode e sa ch)"
  using assms by (auto simp: Let_def)


subsection \<open>The clusters\<close>

lemma obj_sel: "Name (obj n k) = n" "body (obj n k) = k"
  by (simp_all add: obj_def)

lemma scenario_A_marshal: "json_MarshalIndent scenario_A x p i = Inr (encode x)"
  by (simp add: scenario_A_def)

lemma scenario_A_lists:
  "Services_List scenario_A c ''default'' = Inr [obj ''svc-a'' 3]"
  "Services_List scenario_A c ''kube-system'' = Inr []"
  "Deployments_List scenario_A c ns = Inr []"
  "Ingresses_List scenario_A c ''default'' = Inr [obj ''ing-1'' 0]"
  "Ingresses_List scenario_A c ''kube-system'' = Inr []"
  "Namespaces_List scenario_A 8 = Inr [obj ''default'' 1, obj ''kube-system'' 2]"
  by (simp_all add: scenario_A_def)

lemmas encode_simps = encode_def obj_sel numeral_2_eq_2 numeral_3_eq_3

lemma scenario_A_default:
  "NewPersistentInode scenario_A (KubernetesNamespace (Some c) (obj ''default'' 1))
     \<lparr>StableMode = S_IFDIR\<rparr> = Inr (tree_default c)"
  by (simp add: NewPersistentInode.simps Let_def AddChild_def scenario_A_marshal scenario_A_lists
      encode_simps obj_sel tree_default_def leaf_def)

lemma scenario_A_kube_system:
  "NewPersistentInode scenario_A (KubernetesNamespace (Some c) (obj ''kube-system'' 2))
     \<lparr>StableMode = S_IFDIR\<rparr> = Inr (tree_kube_system c)"
  by (simp add: NewPersistentInode.simps Let_def AddChild_def scenario_A_marshal scenario_A_lists
      encode_simps obj_sel tree_kube_system_def leaf_def)

subsection \<open>Namespace directories\<close>




subsection \<open>Attributes of the root\<close>



subsection \<open>The command\<close>

text \<open>
  C10. \<^verbatim>\<open>Run\<close> reads \<^verbatim>\<open>args[0]\<close> with no check of the length: with no argument it
  panics with an index out of range (index 0, length 0), and no other outcome of
  \<^verbatim>\<open>Run\<close> is that panic. With at least one argument it goes on to \<^verbatim>\<open>fs.Mount\<close> on the
  first of them.
\<close>

theorem mountCmd_Run_args:
  "mountCmd_Run w [] = Inl (IndexOutOfRange 0 0) \<and>
   mountCmd_Run w (mountpoint # rest) =
     (case fs_Mount w mountpoint of Inl e \<Rightarrow> Inl (Fatalf e) | Inr server \<Rightarrow> Inr ()) \<and>
   ((\<exists>i n. mountCmd_Run w args = Inl (IndexOutOfRange i n)) \<longleftrightarrow> args = [])"
  by (cases args) (auto simp: mountCmd_Run_def split: sum.splits)

subsection \<open>Collection directories\<close>

text \<open>
  C2. Populating a collection directory (services, deployments or ingresses) that holds
  a client: when the listing returns \<open>items\<close>, their names are distinct (as names within
  one collection are) and each is encoded by \<^verbatim>\<open>json.MarshalIndent(resource, "", " ")\<close>,
  the children are, in the order of the listing, one leaf file for each item, named
  after the item, with mode 0644 and the encoded bytes as content. An empty listing
  ends with no child and no failure.
\<close>

theorem collection_OnAdd_files:
  assumes "(e = KubernetesServices (Some c) ns \<and> Services_List w c ns = Inr items) \<or>
           (e = KubernetesDeployments (Some c) ns \<and> Deployments_List w c ns = Inr items) \<or>
           (e = KubernetesIngress (Some c) ns \<and> Ingresses_List w c ns = Inr items)"
      and "\<forall>x\<in>set items. json_MarshalIndent w x [] '' '' = Inr (enc x)"
      and "distinct (map Name items)"
  shows "OnAdd w (Inode e sa []) =
           Inr (Inode e sa
             (map (\<lambda>x. (Name x,
                Inode (MemRegularFile (enc x) \<lparr>Size = 0, Mode = octal [6, 4, 4]\<rparr>)
                  \<lparr>StableMode = 0\<rparr> [])) items)) \<and>
         (items = [] \<longrightarrow> OnAdd w (Inode e sa []) = Inr (Inode e sa []))"
proof -
  let ?kvs = "map (\<lambda>x. (Name x, leaf (enc x))) items"
  from assms(3) have "distinct (map fst ?kvs)" by (simp add: comp_def)
  from add_all_distinct [OF this, of "Inode e sa []"]
  have "add_all ?kvs (Inode e sa []) = Inode e sa ?kvs" by simp
  with range_Items_add_all [OF assms(2), of "Inode e sa []"]
  have "range_Items w items (Inode e sa []) = Inr (Inode e sa ?kvs)"
    by simp
  with OnAdd_collection_ok [OF assms(1), of sa "[]"] show ?thesis
    by (auto simp: leaf_def)
qed

theorem collection_OnAdd_files_witness:
  "OnAdd scenario_A (Inode (KubernetesServices (Some 8) ''default'') \<lparr>StableMode = S_IFDIR\<rparr> []) =
     Inr (Inode (KubernetesServices (Some 8) ''default'') \<lparr>StableMode = S_IFDIR\<rparr>
       [(''svc-a'', Inode (MemRegularFile ''+++/svc-a'' \<lparr>Size = 0, Mode = 420\<rparr>) \<lparr>StableMode = 0\<rparr> [])]) \<and>
   OnAdd scenario_A (Inode (KubernetesDeployments (Some 8) ''default'') \<lparr>StableMode = S_IFDIR\<rparr> []) =
     Inr (Inode (KubernetesDeployments (Some 8) ''default'') \<lparr>StableMode = S_IFDIR\<rparr> []) \<and>
   OnAdd scenario_A (Inode (KubernetesIngress (Some 8) ''default'') \<lparr>StableMode = S_IFDIR\<rparr> []) =
     Inr (Inode (KubernetesIngress (Some 8) ''default'') \<lparr>StableMode = S_IFDIR\<rparr>
       [(''ing-1'', Inode (MemRegularFile ''/ing-1'' \<lparr>Size = 0, Mode = 420\<rparr>) \<lparr>StableMode = 0\<rparr> [])])"
proof -
  let ?dir = "\<lparr>StableMode = S_IFDIR\<rparr>"
  have m: "\<forall>x\<in>set items. json_MarshalIndent scenario_A x [] '' '' = Inr (encode x)" for items
    by (simp add: scenario_A_marshal)
  have ks: "(KubernetesServices (Some 8) ''default'' = KubernetesServices (Some 8) ''default'' \<and>
        Services_List scenario_A 8 ''default'' = Inr [obj ''svc-a'' 3]) \<or>
      (KubernetesServices (Some 8) ''default'' = KubernetesDeployments (Some 8) ''default'' \<and>
        Deployments_List scenario_A 8 ''default'' = Inr [obj ''svc-a'' 3]) \<or>
      (KubernetesServices (Some 8) ''default'' = KubernetesIngress (Some 8) ''default'' \<and>
        Ingresses_List scenario_A 8 ''default'' = Inr [obj ''svc-a'' 3])"
    by (simp add: scenario_A_lists)
  have kd: "(KubernetesDeployments (Some 8) ''default'' = KubernetesServices (Some 8) ''default'' \<and>
        Services_List scenario_A 8 ''default'' = Inr []) \<or>
      (KubernetesDeployments (Some 8) ''default'' = KubernetesDeployments (Some 8) ''default'' \<and>
        Deployments_List scenario_A 8 ''default'' = Inr []) \<or>
      (KubernetesDeployments (Some 8) ''default'' = KubernetesIngress (Some 8) ''default'' \<and>
        Ingresses_List scenario_A 8 ''default'' = Inr [])"
    by (simp add: scenario_A_lists)
  have ki: "(KubernetesIngress (Some 8) ''default'' = KubernetesServices (Some 8) ''default'' \<and>
        Services_List scenario_A 8 ''default'' = Inr [obj ''ing-1'' 0]) \<or>
      (KubernetesIngress (Some 8) ''default'' = KubernetesDeployments (Some 8) ''default'' \<and>
        Deployments_List scenario_A 8 ''default'' = Inr [obj ''ing-1'' 0]) \<or>
      (KubernetesIngress (Some 8) ''default'' = KubernetesIngress (Some 8) ''default'' \<and>
        Ingresses_List scenario_A 8 ''default'' = Inr [obj ''ing-1'' 0])"
    by (simp add: scenario_A_lists)
  have s: "OnAdd scenario_A (Inode (KubernetesServices (Some 8) ''default'') ?dir []) =
      Inr (Inode (KubernetesServices (Some 8) ''default'') ?dir
        [(''svc-a'', Inode (MemRegularFile ''+++/svc-a'' \<lparr>Size = 0, Mode = 420\<rparr>) \<lparr>StableMode = 0\<rparr> [])])"
    using collection_OnAdd_files [OF ks m, of ?dir, THEN conjunct1]
    by (simp add: encode_simps octal_def)
  have d: "OnAdd scenario_A (Inode (KubernetesDeployments (Some 8) ''default'') ?dir []) =
      Inr (Inode (KubernetesDeployments (Some 8) ''default'') ?dir [])"
    using collection_OnAdd_files [OF kd m, of ?dir, THEN conjunct2]
    by simp
  have i: "OnAdd scenario_A (Inode (KubernetesIngress (Some 8) ''default'') ?dir []) =
      Inr (Inode (KubernetesIngress (Some 8) ''default'') ?dir
        [(''ing-1'', Inode (MemRegularFile ''/ing-1'' \<lparr>Size = 0, Mode = 420\<rparr>) \<lparr>StableMode = 0\<rparr> [])])"
    using collection_OnAdd_files [OF ki m, of ?dir, THEN conjunct1]
    by (simp add: encode_simps octal_def)
  from s d i show ?thesis by (intro conjI)
qed

subsection \<open>A listing that fails\<close>

text \<open>
  C4. When the \<^verbatim>\<open>List\<close> call of a collection directory or of the root fails with
  \<open>er\<close>, the hook panics with \<open>er\<close>, and the receiver has the children it had before
  the call: no \<^verbatim>\<open>AddChild\<close> ran. Nothing else changes either, but that a root which
  built its client on the way holds it.
\<close>

theorem list_failure_no_child:
  assumes "(e = KubernetesServices (Some c) ns \<and> Services_List w c ns = Inl er) \<or>
           (e = KubernetesDeployments (Some c) ns \<and> Deployments_List w c ns = Inl er) \<or>
           (e = KubernetesIngress (Some c) ns \<and> Ingresses_List w c ns = Inl er) \<or>
           ((e = KubernetesRoot (Some c) \<or> e = KubernetesRoot None \<and> new_clientset w = Inr c) \<and>
              Namespaces_List w c = Inl er)"
  shows "OnAdd w (Inode e sa ch) =
           Inl (Panic er,
             Inode (case e of KubernetesRoot cs \<Rightarrow> KubernetesRoot (Some c) | _ \<Rightarrow> e) sa ch) \<and>
         children (final (OnAdd w (Inode e sa ch))) = ch"
  using assms by (auto simp: Let_def final_def)

theorem list_failure_no_child_witness:
  "OnAdd scenario_B
     (Inode (KubernetesServices (Some 8) ''default'') \<lparr>StableMode = S_IFDIR\<rparr> [(''kept'', leaf ''x'')]) =
     Inl (Panic ''timeout'',
       Inode (KubernetesServices (Some 8) ''default'') \<lparr>StableMode = S_IFDIR\<rparr> [(''kept'', leaf ''x'')]) \<and>
   OnAdd scenario_A (Inode (KubernetesRoot (Some 5)) \<lparr>StableMode = S_IFDIR\<rparr> []) =
     Inl (Panic ''unauthorized'', Inode (KubernetesRoot (Some 5)) \<lparr>StableMode = S_IFDIR\<rparr> [])"
proof -
  let ?dir = "\<lparr>StableMode = S_IFDIR\<rparr>"
  have "Services_List scenario_B 8 ''default'' = Inl ''timeout''"
    by (simp add: scenario_B_def scenario_A_def)
  with list_failure_no_child [where e = "KubernetesServices (Some 8) ''default''" and c = 8
      and ns = "''default''" and w = scenario_B and er = "''timeout''" and sa = ?dir
      and ch = "[(''kept'', leaf ''x'')]"]
  have s: "OnAdd scenario_B (Inode (KubernetesServices (Some 8) ''default'') ?dir [(''kept'', leaf ''x'')]) =
      Inl (Panic ''timeout'',
        Inode (KubernetesServices (Some 8) ''default'') ?dir [(''kept'', leaf ''x'')])"
    by simp
  have "Namespaces_List scenario_A 5 = Inl ''unauthorized''"
    by (simp add: scenario_A_def)
  with list_failure_no_child [where e = "KubernetesRoot (Some 5)" and c = 5
      and w = scenario_A and er = "''unauthorized''" and sa = ?dir and ch = "[]"]
  have r: "OnAdd scenario_A (Inode (KubernetesRoot (Some 5)) ?dir []) =
      Inl (Panic ''unauthorized'', Inode (KubernetesRoot (Some 5)) ?dir [])"
    by simp
  from s r show ?thesis by (intro conjI)
qed

subsection \<open>Names that occur twice\<close>

lemma add_all_first_occurrences:
  "set seen = fst ` set (children r) \<Longrightarrow>
     add_all (map (\<lambda>x. (Name x, g x)) items) r =
       Inode (ops r) (stableAttr r)
         (children r @ map (\<lambda>x. (Name x, g x)) (first_occurrences seen items))"
proof (induction items arbitrary: r seen)
  case Nil
  then show ?case by simp
next
  case (Cons x items)
  show ?case
  proof (cases "Name x \<in> set seen")
    case True
    with Cons.prems have "map_of (children r) (Name x) \<noteq> None"
      by (simp add: map_of_eq_None_iff)
    then have "fst (AddChild (Name x) (g x) False r) = r"
      by (simp add: AddChild_present)
    with True Cons.IH [OF Cons.prems] show ?thesis by simp
  next
    case False
    with Cons.prems have none: "map_of (children r) (Name x) = None"
      by (simp add: map_of_eq_None_iff)
    let ?r = "fst (AddChild (Name x) (g x) False r)"
    have r': "?r = Inode (ops r) (stableAttr r) (children r @ [(Name x, g x)])"
      using none by (rule AddChild_new)
    have "set (Name x # seen) = fst ` set (children ?r)"
      using Cons.prems by (auto simp: r')
    from Cons.IH [OF this] False show ?thesis by (simp add: r')
  qed
qed

lemma first_occurrences_names:
  "Name ` set (first_occurrences seen xs) = Name ` set xs - set seen"
  by (induction xs arbitrary: seen) auto

lemma first_occurrences_distinct: "distinct (map Name (first_occurrences seen xs))"
  by (induction xs arbitrary: seen) (auto simp: first_occurrences_names)

lemma first_occurrences_find:
  "find (\<lambda>x. Name x = name) (first_occurrences seen xs) =
     (if name \<in> set seen then None else find (\<lambda>x. Name x = name) xs)"
proof (induction xs arbitrary: seen)
  case Nil
  then show ?case by simp
next
  case (Cons x xs)
  then show ?case by auto
qed

lemma scenario_twice_simps:
  "Services_List scenario_twice c ''twice'' = Inr [obj ''svc-a'' 1, obj ''svc-b'' 0, obj ''svc-a'' 2]"
  "Services_List scenario_twice c ''default'' = Inr [obj ''svc-a'' 3]"
  "Deployments_List scenario_twice c ns = Inr []"
  "Ingresses_List scenario_twice c ''default'' = Inr [obj ''ing-1'' 0]"
  "Namespaces_List scenario_twice c = Inr [obj ''default'' 1, obj ''default'' 2]"
  "json_MarshalIndent scenario_twice x p i = Inr (encode x)"
  by (simp_all add: scenario_twice_def scenario_A_def)

text \<open>
  C9. Children are added with \<^verbatim>\<open>overwrite\<close> false. When a listing has a name more
  than once, a collection directory (whose items are all encoded) ends with the leaf
  files of the first occurrences, in their order. The root, when every namespace
  directory of its listing is created without a panic, ends with the directories of
  the first occurrences. An \<^verbatim>\<open>AddChild\<close> for a name that is present returns false and
  leaves the parent as it was. The first occurrences have distinct names, the names of
  the listing, and looking a name up among them finds what it finds in the listing:
  its first occurrence.
\<close>

theorem duplicate_names_first_wins:
  assumes "(e = KubernetesServices (Some c) ns \<and> Services_List w c ns = Inr items) \<or>
           (e = KubernetesDeployments (Some c) ns \<and> Deployments_List w c ns = Inr items) \<or>
           (e = KubernetesIngress (Some c) ns \<and> Ingresses_List w c ns = Inr items)"
      and "\<forall>x\<in>set items. json_MarshalIndent w x [] '' '' = Inr (enc x)"
  shows "OnAdd w (Inode e sa []) =
           Inr (Inode e sa
             (map (\<lambda>x. (Name x,
                Inode (MemRegularFile (enc x) \<lparr>Size = 0, Mode = octal [6, 4, 4]\<rparr>)
                  \<lparr>StableMode = 0\<rparr> [])) (first_occurrences [] items))) \<and>
         (Namespaces_List w c = Inr namespaces \<and>
          (\<forall>n\<in>set namespaces.
             NewPersistentInode w (KubernetesNamespace (Some c) n) \<lparr>StableMode = S_IFDIR\<rparr> =
               Inr (pop n)) \<longrightarrow>
            OnAdd w (Inode (KubernetesRoot (Some c)) sa []) =
              Inr (Inode (KubernetesRoot (Some c)) sa
                (map (\<lambda>n. (Name n, pop n)) (first_occurrences [] namespaces)))) \<and>
         (GetChild name n \<noteq> None \<longrightarrow> AddChild name ch False n = (n, False)) \<and>
         distinct (map Name (first_occurrences [] items)) \<and>
         Name ` set (first_occurrences [] items) = Name ` set items \<and>
         find (\<lambda>x. Name x = name) (first_occurrences [] items) = find (\<lambda>x. Name x = name) items"
proof -
  have "range_Items w items (Inode e sa []) =
      Inr (Inode e sa (map (\<lambda>x. (Name x, leaf (enc x))) (first_occurrences [] items)))"
    using range_Items_add_all [OF assms(2), of "Inode e sa []"]
      add_all_first_occurrences [of "[]" "Inode e sa []" "\<lambda>x. leaf (enc x)" items]
    by simp
  with OnAdd_collection_ok [OF assms(1), of sa "[]"]
  have files: "OnAdd w (Inode e sa []) =
      Inr (Inode e sa (map (\<lambda>x. (Name x, leaf (enc x))) (first_occurrences [] items)))"
    by simp
  have root: "OnAdd w (Inode (KubernetesRoot (Some c)) sa []) =
      Inr (Inode (KubernetesRoot (Some c)) sa
        (map (\<lambda>n. (Name n, pop n)) (first_occurrences [] namespaces)))"
    if l: "Namespaces_List w c = Inr namespaces"
      and p: "\<forall>n\<in>set namespaces.
        NewPersistentInode w (KubernetesNamespace (Some c) n) \<lparr>StableMode = S_IFDIR\<rparr> = Inr (pop n)"
    using l range_namespaces_add_all [OF p, of "Inode (KubernetesRoot (Some c)) sa []"]
      add_all_first_occurrences [of "[]" "Inode (KubernetesRoot (Some c)) sa []" pop namespaces]
    by simp
  have step: "AddChild name ch False n = (n, False)" if "GetChild name n \<noteq> None"
    using that by (simp add: GetChild_def AddChild_present)
  from files root step show ?thesis
    by (simp add: leaf_def first_occurrences_distinct
        first_occurrences_names first_occurrences_find)
qed

theorem duplicate_names_first_wins_witness:
  "OnAdd scenario_twice
     (Inode (KubernetesServices (Some 8) ''twice'') \<lparr>StableMode = S_IFDIR\<rparr> []) =
     Inr (Inode (KubernetesServices (Some 8) ''twice'') \<lparr>StableMode = S_IFDIR\<rparr>
       [(''svc-a'', Inode (MemRegularFile ''+/svc-a'' \<lparr>Size = 0, Mode = 420\<rparr>) \<lparr>StableMode = 0\<rparr> []),
        (''svc-b'', Inode (MemRegularFile ''/svc-b'' \<lparr>Size = 0, Mode = 420\<rparr>) \<lparr>StableMode = 0\<rparr> [])]) \<and>
   OnAdd scenario_twice (Inode (KubernetesRoot (Some 8)) \<lparr>StableMode = S_IFDIR\<rparr> []) =
     Inr (Inode (KubernetesRoot (Some 8)) \<lparr>StableMode = S_IFDIR\<rparr> [(''default'', tree_default 8)]) \<and>
   AddChild ''svc-a'' (leaf ''++/svc-a'') False
       (Inode (KubernetesServices (Some 8) ''twice'') \<lparr>StableMode = S_IFDIR\<rparr>
          [(''svc-a'', leaf ''+/svc-a'')]) =
     (Inode (KubernetesServices (Some 8) ''twice'') \<lparr>StableMode = S_IFDIR\<rparr>
        [(''svc-a'', leaf ''+/svc-a'')] :: nat inode, False)"
proof -
  let ?dir = "\<lparr>StableMode = S_IFDIR\<rparr>"
  let ?n = "Inode (KubernetesServices (Some 8) ''twice'') ?dir [(''svc-a'', leaf ''+/svc-a'')]
    :: nat inode"
  let ?items = "[obj ''svc-a'' 1, obj ''svc-b'' 0, obj ''svc-a'' 2]"
  let ?nss = "[obj ''default'' 1, obj ''default'' 2]"
  let ?second = "Inode (KubernetesNamespace (Some 8) (obj ''default'' 2)) ?dir
       [(''namespace.json'', leaf ''++/default''),
        (''services'', Inode (KubernetesServices (Some 8) ''default'') ?dir
           [(''svc-a'', leaf ''+++/svc-a'')]),
        (''deployments'', Inode (KubernetesDeployments (Some 8) ''default'') ?dir []),
        (''ingresses'', Inode (KubernetesIngress (Some 8) ''default'') ?dir
           [(''ing-1'', leaf ''/ing-1'')])] :: nat inode"
  let ?pop = "\<lambda>n. if body n = 1 then tree_default 8 else ?second"
  have k: "(KubernetesServices (Some 8) ''twice'' = KubernetesServices (Some 8) ''twice'' \<and>
        Services_List scenario_twice 8 ''twice'' = Inr ?items) \<or>
      (KubernetesServices (Some 8) ''twice'' = KubernetesDeployments (Some 8) ''twice'' \<and>
        Deployments_List scenario_twice 8 ''twice'' = Inr ?items) \<or>
      (KubernetesServices (Some 8) ''twice'' = KubernetesIngress (Some 8) ''twice'' \<and>
        Ingresses_List scenario_twice 8 ''twice'' = Inr ?items)"
    by (simp add: scenario_twice_simps)
  have m: "\<forall>x\<in>set ?items. json_MarshalIndent scenario_twice x [] '' '' = Inr (encode x)"
    by (simp add: scenario_twice_simps)
  note t = duplicate_names_first_wins [OF k m, where sa = ?dir and namespaces = ?nss
      and pop = ?pop and name = "''svc-a''" and n = ?n and ch = "leaf ''++/svc-a''"]
  have fo: "first_occurrences [] ?items = [obj ''svc-a'' 1, obj ''svc-b'' 0]"
    "first_occurrences [] ?nss = [obj ''default'' 1]"
    by (simp_all add: obj_sel)
  have first: "NewPersistentInode scenario_twice (KubernetesNamespace (Some 8) (obj ''default'' 1)) ?dir =
      Inr (tree_default 8)"
    by (simp add: NewPersistentInode.simps Let_def AddChild_def scenario_twice_simps
        encode_simps tree_default_def leaf_def)
  have second: "NewPersistentInode scenario_twice (KubernetesNamespace (Some 8) (obj ''default'' 2)) ?dir =
      Inr ?second"
    by (simp add: NewPersistentInode.simps Let_def AddChild_def scenario_twice_simps
        encode_simps leaf_def)
  have pops: "Namespaces_List scenario_twice 8 = Inr ?nss \<and>
      (\<forall>n\<in>set ?nss. NewPersistentInode scenario_twice (KubernetesNamespace (Some 8) n) ?dir =
         Inr (?pop n))"
    using first second by (simp add: scenario_twice_simps obj_sel)
  from t [THEN conjunct1]
  have a: "OnAdd scenario_twice (Inode (KubernetesServices (Some 8) ''twice'') ?dir []) =
      Inr (Inode (KubernetesServices (Some 8) ''twice'') ?dir
        [(''svc-a'', Inode (MemRegularFile ''+/svc-a'' \<lparr>Size = 0, Mode = 420\<rparr>) \<lparr>StableMode = 0\<rparr> []),
         (''svc-b'', Inode (MemRegularFile ''/svc-b'' \<lparr>Size = 0, Mode = 420\<rparr>) \<lparr>StableMode = 0\<rparr> [])])"
    unfolding fo by (simp add: encode_simps octal_def)
  from t [THEN conjunct2, THEN conjunct1] pops
  have "OnAdd scenario_twice (Inode (KubernetesRoot (Some 8)) ?dir []) =
      Inr (Inode (KubernetesRoot (Some 8)) ?dir
        (map (\<lambda>n. (Name n, ?pop n)) (first_occurrences [] ?nss)))"
    by (rule mp)
  then have b: "OnAdd scenario_twice (Inode (KubernetesRoot (Some 8)) ?dir []) =
      Inr (Inode (KubernetesRoot (Some 8)) ?dir [(''default'', tree_default 8)])"
    unfolding fo by (simp add: obj_sel)
  have "GetChild ''svc-a'' ?n \<noteq> None"
    by (simp add: GetChild_def)
  with t [THEN conjunct2, THEN conjunct2, THEN conjunct1]
  have c: "AddChild ''svc-a'' (leaf ''++/svc-a'') False ?n = (?n, False)"
    by (rule mp)
  from a b c show ?thesis by (intro conjI)
qed

subsection \<open>The root directory\<close>




subsection \<open>What the files hold\<close>







subsection \<open>One client for the whole tree\<close>

lemma range_Items_cong:
  assumes "json_MarshalIndent w' = json_MarshalIndent w"
  shows "range_Items w' items r = range_Items w items r"
  using assms by (induction items arbitrary: r) (simp_all split: sum.splits)

lemma NewPersistentInode_collection_cong:
  assumes "Services_List w' = Services_List w" "Deployments_List w' = Deployments_List w"
      "Ingresses_List w' = Ingresses_List w" "json_MarshalIndent w' = json_MarshalIndent w"
      and "e = KubernetesServices cs ns \<or> e = KubernetesDeployments cs ns \<or> e = KubernetesIngress cs ns"
  shows "NewPersistentInode w' e sa = NewPersistentInode w e sa"
  using assms range_Items_cong [of w' w]
  by (auto simp: NewPersistentInode.simps Let_def split: option.splits sum.splits)

lemma OnAdd_namespace_cong:
  assumes "Services_List w' = Services_List w" "Deployments_List w' = Deployments_List w"
      "Ingresses_List w' = Ingresses_List w" "json_MarshalIndent w' = json_MarshalIndent w"
  shows "OnAdd w' (Inode (KubernetesNamespace cs namespace) sa ch) =
         OnAdd w (Inode (KubernetesNamespace cs namespace) sa ch)"
proof -
  note coll = NewPersistentInode_collection_cong [OF assms, of _ cs "Name namespace" "\<lparr>StableMode = S_IFDIR\<rparr>"]
  have "NewPersistentInode w' (KubernetesServices cs (Name namespace)) \<lparr>StableMode = S_IFDIR\<rparr> =
      NewPersistentInode w (KubernetesServices cs (Name namespace)) \<lparr>StableMode = S_IFDIR\<rparr>"
    "NewPersistentInode w' (KubernetesDeployments cs (Name namespace)) \<lparr>StableMode = S_IFDIR\<rparr> =
      NewPersistentInode w (KubernetesDeployments cs (Name namespace)) \<lparr>StableMode = S_IFDIR\<rparr>"
    "NewPersistentInode w' (KubernetesIngress cs (Name namespace)) \<lparr>StableMode = S_IFDIR\<rparr> =
      NewPersistentInode w (KubernetesIngress cs (Name namespace)) \<lparr>StableMode = S_IFDIR\<rparr>"
    by (simp_all add: coll)
  with assms(4) show ?thesis
    by (simp add: Let_def cong: sum.case_cong)
qed

lemma range_namespaces_cong:
  assumes "Services_List w' = Services_List w" "Deployments_List w' = Deployments_List w"
      "Ingresses_List w' = Ingresses_List w" "json_MarshalIndent w' = json_MarshalIndent w"
  shows "range_namespaces w' cs namespaces r = range_namespaces w cs namespaces r"
proof (induction namespaces arbitrary: r)
  case Nil
  then show ?case by simp
next
  case (Cons x namespaces)
  have "NewPersistentInode w' (KubernetesNamespace cs x) \<lparr>StableMode = S_IFDIR\<rparr> =
      NewPersistentInode w (KubernetesNamespace cs x) \<lparr>StableMode = S_IFDIR\<rparr>"
    by (simp only: NewPersistentInode.simps OnAdd_namespace_cong [OF assms])
  with Cons.IH show ?case by (simp split: sum.splits)
qed


text \<open>
  C7. A hook, whether it returns or panics, leaves a tree whose nodes all hold the
  client \<open>c\<close> when they did before: every node it creates holds the handle of its
  parent, and none is replaced. A root that holds a client keeps it, and its hook
  then depends on the listings and the encoder only, not on what a bootstrap would
  read: no client is built a second time. A root created without a client holds, once
  populated, the one client that was built, and so does every node under it.
\<close>

theorem clientset_shared:
  "(clientsets n \<subseteq> {Some c} \<longrightarrow> clientsets (final (OnAdd w n)) \<subseteq> {Some c}) \<and>
   ops (final (OnAdd w (Inode (KubernetesRoot (Some c)) sa ch))) = KubernetesRoot (Some c) \<and>
   (Namespaces_List w' = Namespaces_List w \<and> Services_List w' = Services_List w \<and>
    Deployments_List w' = Deployments_List w \<and> Ingresses_List w' = Ingresses_List w \<and>
    json_MarshalIndent w' = json_MarshalIndent w \<longrightarrow>
      OnAdd w' (Inode (KubernetesRoot (Some c)) sa ch) =
      OnAdd w (Inode (KubernetesRoot (Some c)) sa ch)) \<and>
   (OnAdd w (Inode (KubernetesRoot None) sa []) = Inr r' \<longrightarrow>
      (\<exists>c'. new_clientset w = Inr c' \<and> clientsets r' = {Some c'}))"
proof (intro conjI impI)
  assume "clientsets n \<subseteq> {Some c}"
  then show "clientsets (final (OnAdd w n)) \<subseteq> {Some c}"
    by (rule OnAdd_clientsets)
next
  show "ops (final (OnAdd w (Inode (KubernetesRoot (Some c)) sa ch))) = KubernetesRoot (Some c)"
    by (cases "Namespaces_List w c") (simp_all add: final_def ops_range_namespaces [unfolded final_def])
next
  assume h: "Namespaces_List w' = Namespaces_List w \<and> Services_List w' = Services_List w \<and>
    Deployments_List w' = Deployments_List w \<and> Ingresses_List w' = Ingresses_List w \<and>
    json_MarshalIndent w' = json_MarshalIndent w"
  have "range_namespaces w' (Some c) namespaces r = range_namespaces w (Some c) namespaces r"
    for namespaces r
    using h by (intro range_namespaces_cong) simp_all
  moreover from h have "Namespaces_List w' = Namespaces_List w"
    by simp
  ultimately show "OnAdd w' (Inode (KubernetesRoot (Some c)) sa ch) =
      OnAdd w (Inode (KubernetesRoot (Some c)) sa ch)"
    by (simp add: Let_def cong: sum.case_cong)
next
  assume ok: "OnAdd w (Inode (KubernetesRoot None) sa []) = Inr r'"
  then obtain c' where c': "new_clientset w = Inr c'"
    by (cases "new_clientset w") auto
  let ?r = "Inode (KubernetesRoot (Some c')) sa []"
  from ok c' have run: "OnAdd w ?r = Inr r'"
    by simp
  then have r': "final (OnAdd w ?r) = r'"
    by (simp add: final_def)
  have "clientsets ?r \<subseteq> {Some c'}" by simp
  then have "clientsets (final (OnAdd w ?r)) \<subseteq> {Some c'}"
    by (rule OnAdd_clientsets)
  with r' have sub: "clientsets r' \<subseteq> {Some c'}" by simp
  from run have "\<exists>nss. range_namespaces w (Some c') nss ?r = Inr r'"
    by (cases "Namespaces_List w c'") auto
  then obtain nss where "range_namespaces w (Some c') nss ?r = Inr r'" ..
  then have "final (range_namespaces w (Some c') nss ?r) = r'"
    by (simp add: final_def)
  with ops_range_namespaces [of w "Some c'" nss ?r] have "ops r' = KubernetesRoot (Some c')"
    by simp
  then have "Some c' \<in> clientsets r'"
    by (subst clientsets_alt) simp
  with sub have "clientsets r' = {Some c'}" by blast
  with c' show "\<exists>c'. new_clientset w = Inr c' \<and> clientsets r' = {Some c'}" by blast
qed

theorem clientset_shared_witness:
  "clientsets (final (OnAdd scenario_A
     (Inode (KubernetesNamespace (Some 8) (obj ''default'' 1)) \<lparr>StableMode = S_IFDIR\<rparr> [])))
     \<subseteq> {Some 8} \<and>
   OnAdd scenario_flag (Inode (KubernetesRoot (Some 8)) \<lparr>StableMode = S_IFDIR\<rparr> []) =
     OnAdd scenario_A (Inode (KubernetesRoot (Some 8)) \<lparr>StableMode = S_IFDIR\<rparr> []) \<and>
   OnAdd scenario_A (Inode (KubernetesRoot None) \<lparr>StableMode = S_IFDIR\<rparr> []) = Inr tree_A \<and>
   (\<exists>c'. new_clientset scenario_A = Inr c' \<and> clientsets tree_A = {Some c'})"
proof -
  let ?dir = "\<lparr>StableMode = S_IFDIR\<rparr>"
  let ?n = "Inode (KubernetesNamespace (Some 8) (obj ''default'' 1)) ?dir [] :: nat inode"
  note t = clientset_shared [where n = ?n and c = 8 and w = scenario_A and w' = scenario_flag
      and sa = ?dir and ch = "[]" and r' = tree_A]
  have "clientsets ?n \<subseteq> {Some 8}"
    by simp
  with t [THEN conjunct1] have a: "clientsets (final (OnAdd scenario_A ?n)) \<subseteq> {Some 8}"
    by (rule mp)
  have "Namespaces_List scenario_flag = Namespaces_List scenario_A \<and>
      Services_List scenario_flag = Services_List scenario_A \<and>
      Deployments_List scenario_flag = Deployments_List scenario_A \<and>
      Ingresses_List scenario_flag = Ingresses_List scenario_A \<and>
      json_MarshalIndent scenario_flag = json_MarshalIndent scenario_A"
    by (simp add: scenario_flag_def)
  with t [THEN conjunct2, THEN conjunct2, THEN conjunct1]
  have b: "OnAdd scenario_flag (Inode (KubernetesRoot (Some 8)) ?dir []) =
      OnAdd scenario_A (Inode (KubernetesRoot (Some 8)) ?dir [])"
    by (rule mp)
  have new: "new_clientset scenario_A = Inr 8"
    by (simp add: new_clientset_def kubeconfig_def scenario_A_def)
  have root: "OnAdd scenario_A (Inode (KubernetesRoot None) ?dir []) = Inr tree_A"
    using scenario_A_default [of 8] scenario_A_kube_system [of 8]
    by (simp add: new AddChild_def scenario_A_lists obj_sel tree_A_def)
  with t [THEN conjunct2, THEN conjunct2, THEN conjunct2]
  have c: "\<exists>c'. new_clientset scenario_A = Inr c' \<and> clientsets tree_A = {Some c'}"
    by (rule mp)
  from a b root c show ?thesis by (intro conjI)
qed

end
